theory Spec2Isabelle
  imports Complex_Main
begin

section \<open>The in-memory repository (server/storage.ts)\<close>

text \<open>
  Numbers of the source are JavaScript numbers. Record ids and counts are integral and
  far below \<open>2^53\<close> (a JavaScript \<open>Map\<close> cannot hold that many entries), so they are
  modelled as \<open>int\<close>. Dates are modelled as \<open>int\<close> (milliseconds).
\<close>

subsection \<open>Entities (shared schema)\<close>

record user =
  u_id :: int
  u_username :: string
  u_email :: string
  u_password :: string

text \<open>
  The insert types come from \<open>createInsertSchema\<close>: the serial \<open>id\<close> is optional in
  them. The create methods build \<open>{ ...insert, id }\<close>, so an \<open>id\<close> carried by the payload
  is overwritten by the generated one.
\<close>

record insert_user =
  iu_id :: "int option"
  iu_username :: string
  iu_email :: string
  iu_password :: string

record subject =
  s_id :: int
  s_name :: string
  s_code :: string
  s_facultyName :: string
  s_schedule :: string

record insert_subject =
  is_id :: "int option"
  is_name :: string
  is_code :: string
  is_facultyName :: string
  is_schedule :: string

record enrollment =
  e_id :: int
  e_userId :: int
  e_subjectId :: int

record insert_enrollment =
  ie_id :: "int option"
  ie_userId :: int
  ie_subjectId :: int

record tracking_result =
  t_id :: int
  t_userId :: int
  t_subjectId :: int
  t_sessionDate :: int
  t_startTime :: int
  t_endTime :: int
  t_eyeMovementCount :: int
  t_eyeBlinkCount :: int
  t_postureChangeCount :: int
  t_attentivenessScore :: int
  t_sessionData :: string

record insert_tracking_result =
  it_id :: "int option"
  it_userId :: int
  it_subjectId :: int
  it_sessionDate :: int
  it_startTime :: int
  it_endTime :: int
  it_eyeMovementCount :: int
  it_eyeBlinkCount :: int
  it_postureChangeCount :: int
  it_attentivenessScore :: int
  it_sessionData :: string

subsection \<open>A JavaScript Map with number keys\<close>

text \<open>
  A \<open>Map\<close> iterates in insertion order; \<open>set\<close> on a key that is present replaces the
  value in place, \<open>set\<close> on a new key appends. It is an association list, oldest
  entry first.
\<close>

type_synonym 'v js_map = "(int \<times> 'v) list"

fun map_set :: "'v js_map \<Rightarrow> int \<Rightarrow> 'v \<Rightarrow> 'v js_map" where
  "map_set [] k v = [(k, v)]"
| "map_set ((k', v') # m) k v =
     (if k' = k then (k, v) # m else (k', v') # map_set m k v)"

definition map_get :: "'v js_map \<Rightarrow> int \<Rightarrow> 'v option" where
  "map_get m k = map_of m k"

definition map_keys :: "'v js_map \<Rightarrow> int list" where
  "map_keys m = map fst m"

definition map_values :: "'v js_map \<Rightarrow> 'v list" where
  "map_values m = map snd m"

subsection \<open>MemStorage\<close>

record memstorage =
  users :: "user js_map"
  subjects :: "subject js_map"
  enrollments :: "enrollment js_map"
  trackingResults :: "tracking_result js_map"
  userId :: int
  subjectId :: int
  enrollmentId :: int
  trackingResultId :: int

text \<open>The state after the first eight assignments of the constructor.\<close>

definition MemStorage_empty :: memstorage where
  "MemStorage_empty =
     \<lparr>users = [], subjects = [], enrollments = [], trackingResults = [],
      userId = 1, subjectId = 1, enrollmentId = 1, trackingResultId = 1\<rparr>"

definition getUser :: "memstorage \<Rightarrow> int \<Rightarrow> user option" where
  "getUser s i = map_get (users s) i"

definition getUserByUsername :: "memstorage \<Rightarrow> string \<Rightarrow> user option" where
  "getUserByUsername s name = find (\<lambda>u. u_username u = name) (map_values (users s))"

definition getUserByEmail :: "memstorage \<Rightarrow> string \<Rightarrow> user option" where
  "getUserByEmail s mail = find (\<lambda>u. u_email u = mail) (map_values (users s))"

definition createUser :: "memstorage \<Rightarrow> insert_user \<Rightarrow> memstorage \<times> user" where
  "createUser s insertUser =
     (let i = userId s;
          usr = \<lparr>u_id = i, u_username = iu_username insertUser,
                 u_email = iu_email insertUser, u_password = iu_password insertUser\<rparr>
      in (s\<lparr>userId := i + 1, users := map_set (users s) i usr\<rparr>, usr))"

definition getSubject :: "memstorage \<Rightarrow> int \<Rightarrow> subject option" where
  "getSubject s i = map_get (subjects s) i"

definition getSubjectByCode :: "memstorage \<Rightarrow> string \<Rightarrow> subject option" where
  "getSubjectByCode s c = find (\<lambda>x. s_code x = c) (map_values (subjects s))"

definition getAllSubjects :: "memstorage \<Rightarrow> subject list" where
  "getAllSubjects s = map_values (subjects s)"

definition createSubject :: "memstorage \<Rightarrow> insert_subject \<Rightarrow> memstorage \<times> subject" where
  "createSubject s insertSubject =
     (let i = subjectId s;
          sub = \<lparr>s_id = i, s_name = is_name insertSubject, s_code = is_code insertSubject,
                 s_facultyName = is_facultyName insertSubject,
                 s_schedule = is_schedule insertSubject\<rparr>
      in (s\<lparr>subjectId := i + 1, subjects := map_set (subjects s) i sub\<rparr>, sub))"

definition getEnrollmentsByUserId :: "memstorage \<Rightarrow> int \<Rightarrow> enrollment list" where
  "getEnrollmentsByUserId s uid =
     filter (\<lambda>e. e_userId e = uid) (map_values (enrollments s))"

definition getEnrolledSubjectsByUserId :: "memstorage \<Rightarrow> int \<Rightarrow> subject list" where
  "getEnrolledSubjectsByUserId s uid =
     (let subjectIds = map e_subjectId (getEnrollmentsByUserId s uid)
      in filter (\<lambda>x. List.member subjectIds (s_id x)) (map_values (subjects s)))"

definition enrollUserInSubject ::
  "memstorage \<Rightarrow> insert_enrollment \<Rightarrow> memstorage \<times> enrollment" where
  "enrollUserInSubject s insertEnrollment =
     (let i = enrollmentId s;
          enr = \<lparr>e_id = i, e_userId = ie_userId insertEnrollment,
                 e_subjectId = ie_subjectId insertEnrollment\<rparr>
      in (s\<lparr>enrollmentId := i + 1, enrollments := map_set (enrollments s) i enr\<rparr>, enr))"

definition isUserEnrolledInSubject :: "memstorage \<Rightarrow> int \<Rightarrow> int \<Rightarrow> bool" where
  "isUserEnrolledInSubject s uid sid =
     list_ex (\<lambda>e. e_userId e = uid \<and> e_subjectId e = sid) (map_values (enrollments s))"

definition saveTrackingResult ::
  "memstorage \<Rightarrow> insert_tracking_result \<Rightarrow> memstorage \<times> tracking_result" where
  "saveTrackingResult s insertResult =
     (let i = trackingResultId s;
          res = \<lparr>t_id = i, t_userId = it_userId insertResult,
                 t_subjectId = it_subjectId insertResult,
                 t_sessionDate = it_sessionDate insertResult,
                 t_startTime = it_startTime insertResult,
                 t_endTime = it_endTime insertResult,
                 t_eyeMovementCount = it_eyeMovementCount insertResult,
                 t_eyeBlinkCount = it_eyeBlinkCount insertResult,
                 t_postureChangeCount = it_postureChangeCount insertResult,
                 t_attentivenessScore = it_attentivenessScore insertResult,
                 t_sessionData = it_sessionData insertResult\<rparr>
      in (s\<lparr>trackingResultId := i + 1,
            trackingResults := map_set (trackingResults s) i res\<rparr>, res))"

definition getTrackingResultsByUserId :: "memstorage \<Rightarrow> int \<Rightarrow> tracking_result list" where
  "getTrackingResultsByUserId s uid =
     filter (\<lambda>r. t_userId r = uid) (map_values (trackingResults s))"

definition getTrackingResultByUserAndSubject ::
  "memstorage \<Rightarrow> int \<Rightarrow> int \<Rightarrow> tracking_result list" where
  "getTrackingResultByUserAndSubject s uid sid =
     filter (\<lambda>r. t_userId r = uid \<and> t_subjectId r = sid) (map_values (trackingResults s))"

subsection \<open>Seed data and the constructor\<close>

definition demoUsers :: "insert_user list" where
  "demoUsers =
     [\<lparr>iu_id = None, iu_username = ''john_doe'', iu_email = ''john@vle.edu'',
       iu_password = ''student123''\<rparr>,
      \<lparr>iu_id = None, iu_username = ''emma_smith'', iu_email = ''emma@vle.edu'',
       iu_password = ''student456''\<rparr>,
      \<lparr>iu_id = None, iu_username = ''mike_jones'', iu_email = ''mike@vle.edu'',
       iu_password = ''student789''\<rparr>,
      \<lparr>iu_id = None, iu_username = ''sara_wilson'', iu_email = ''sara@vle.edu'',
       iu_password = ''student012''\<rparr>,
      \<lparr>iu_id = None, iu_username = ''alex_brown'', iu_email = ''alex@vle.edu'',
       iu_password = ''student345''\<rparr>]"

definition demoSubjects :: "insert_subject list" where
  "demoSubjects =
     [\<lparr>is_id = None, is_name = ''Artificial Intelligence'', is_code = ''AI'',
       is_facultyName = ''Dr. Alan Turing'', is_schedule = ''Mon, Wed, Fri - 14:30-16:00''\<rparr>,
      \<lparr>is_id = None, is_name = ''Database Management Systems'', is_code = ''DBMS'',
       is_facultyName = ''Dr. Edgar Codd'', is_schedule = ''Tue, Thu - 10:00-11:30''\<rparr>,
      \<lparr>is_id = None, is_name = ''Operating Systems'', is_code = ''OS'',
       is_facultyName = ''Prof. Linus Torvalds'', is_schedule = ''Mon, Wed - 09:00-10:30''\<rparr>,
      \<lparr>is_id = None, is_name = ''Computer Networks'', is_code = ''CN'',
       is_facultyName = ''Dr. Vint Cerf'', is_schedule = ''Tue, Thu - 13:00-14:30''\<rparr>]"

definition demoEnrollments :: "insert_enrollment list" where
  "demoEnrollments =
     [\<lparr>ie_id = None, ie_userId = 1, ie_subjectId = 1\<rparr>,
      \<lparr>ie_id = None, ie_userId = 1, ie_subjectId = 2\<rparr>,
      \<lparr>ie_id = None, ie_userId = 2, ie_subjectId = 1\<rparr>,
      \<lparr>ie_id = None, ie_userId = 3, ie_subjectId = 2\<rparr>,
      \<lparr>ie_id = None, ie_userId = 3, ie_subjectId = 3\<rparr>,
      \<lparr>ie_id = None, ie_userId = 4, ie_subjectId = 4\<rparr>,
      \<lparr>ie_id = None, ie_userId = 5, ie_subjectId = 1\<rparr>]"

definition seedUsers :: "memstorage \<Rightarrow> memstorage" where
  "seedUsers s = foldl (\<lambda>st x. fst (createUser st x)) s demoUsers"

definition seedSubjects :: "memstorage \<Rightarrow> memstorage" where
  "seedSubjects s = foldl (\<lambda>st x. fst (createSubject st x)) s demoSubjects"

definition seedEnrollments :: "memstorage \<Rightarrow> memstorage" where
  "seedEnrollments s = foldl (\<lambda>st x. fst (enrollUserInSubject st x)) s demoEnrollments"

definition MemStorage_new :: memstorage where
  "MemStorage_new = seedEnrollments (seedSubjects (seedUsers MemStorage_empty))"

subsection \<open>Sequences of create operations\<close>

datatype entity = UserE | SubjectE | EnrollmentE | TrackingResultE

datatype storage_op =
    CreateUser insert_user
  | CreateSubject insert_subject
  | EnrollUserInSubject insert_enrollment
  | SaveTrackingResult insert_tracking_result

text \<open>What a create call returns.\<close>

datatype created =
    CreatedUser user
  | CreatedSubject subject
  | CreatedEnrollment enrollment
  | CreatedTrackingResult tracking_result

fun apply_op :: "memstorage \<Rightarrow> storage_op \<Rightarrow> memstorage \<times> created" where
  "apply_op s (CreateUser x) = (let (s', r) = createUser s x in (s', CreatedUser r))"
| "apply_op s (CreateSubject x) = (let (s', r) = createSubject s x in (s', CreatedSubject r))"
| "apply_op s (EnrollUserInSubject x) =
     (let (s', r) = enrollUserInSubject s x in (s', CreatedEnrollment r))"
| "apply_op s (SaveTrackingResult x) =
     (let (s', r) = saveTrackingResult s x in (s', CreatedTrackingResult r))"

text \<open>A sequence of create calls: the final state and the records returned, oldest first.\<close>

fun run_ops :: "memstorage \<Rightarrow> storage_op list \<Rightarrow> memstorage \<times> created list" where
  "run_ops s [] = (s, [])"
| "run_ops s (x # xs) =
     (let (s', c) = apply_op s x; (s'', cs) = run_ops s' xs in (s'', c # cs))"

fun created_entity :: "created \<Rightarrow> entity" where
  "created_entity (CreatedUser r) = UserE"
| "created_entity (CreatedSubject r) = SubjectE"
| "created_entity (CreatedEnrollment r) = EnrollmentE"
| "created_entity (CreatedTrackingResult r) = TrackingResultE"

fun created_id :: "created \<Rightarrow> int" where
  "created_id (CreatedUser r) = u_id r"
| "created_id (CreatedSubject r) = s_id r"
| "created_id (CreatedEnrollment r) = e_id r"
| "created_id (CreatedTrackingResult r) = t_id r"

text \<open>The ids issued for one entity type, in the order of the calls.\<close>

definition issued_ids :: "entity \<Rightarrow> created list \<Rightarrow> int list" where
  "issued_ids k cs = map created_id (filter (\<lambda>c. created_entity c = k) cs)"

text \<open>The tracking results and the enrollments among the records created.\<close>

fun saved_results :: "created list \<Rightarrow> tracking_result list" where
  "saved_results [] = []"
| "saved_results (CreatedTrackingResult r # cs) = r # saved_results cs"
| "saved_results (c # cs) = saved_results cs"

fun created_enrollments :: "created list \<Rightarrow> enrollment list" where
  "created_enrollments [] = []"
| "created_enrollments (CreatedEnrollment r # cs) = r # created_enrollments cs"
| "created_enrollments (c # cs) = created_enrollments cs"

text \<open>The constructor's seeding, as the create calls it makes.\<close>

definition seed_ops :: "storage_op list" where
  "seed_ops = map CreateUser demoUsers @ map CreateSubject demoSubjects
              @ map EnrollUserInSubject demoEnrollments"

text \<open>The keys of a map ascend strictly and lie below the counter that issues them.\<close>

definition keys_below :: "'v js_map \<Rightarrow> int \<Rightarrow> bool" where
  "keys_below m n = sorted_wrt (<) (map_keys m @ [n])"

definition storage_inv :: "memstorage \<Rightarrow> bool" where
  "storage_inv s \<longleftrightarrow>
     keys_below (users s) (userId s) \<and> keys_below (subjects s) (subjectId s) \<and>
     keys_below (enrollments s) (enrollmentId s) \<and>
     keys_below (trackingResults s) (trackingResultId s)"

fun counter :: "entity \<Rightarrow> memstorage \<Rightarrow> int" where
  "counter UserE s = userId s"
| "counter SubjectE s = subjectId s"
| "counter EnrollmentE s = enrollmentId s"
| "counter TrackingResultE s = trackingResultId s"

subsection \<open>The Results page's selection of the latest result (client/src/pages/Results.tsx)\<close>

definition latestResult :: "'a list \<Rightarrow> 'a option" where
  "latestResult rs = (if length rs > 0 then Some (rs ! (length rs - 1)) else None)"

section \<open>JavaScript values at the client\<close>

text \<open>
  What a \<open>catch\<close> clause receives: an \<open>Error\<close> instance with its message, or some
  other thrown value.
\<close>

datatype js_exn = Error string | Thrown

definition errorMessage :: "js_exn \<Rightarrow> string \<Rightarrow> string" where
  "errorMessage err fallback = (case err of Error m \<Rightarrow> m | Thrown \<Rightarrow> fallback)"

text \<open>
  A value read from a parsed JSON body (\<open>any\<close> in the source). A field that is absent
  reads as \<open>undefined\<close>; arrays and objects are not inspected by the code modelled here
  and are one opaque constructor.
\<close>

datatype jsval = JUndefined | JNull | JBool bool | JNum rat | JStr string | JObject

fun truthy :: "jsval \<Rightarrow> bool" where
  "truthy JUndefined = False"
| "truthy JNull = False"
| "truthy (JBool b) = b"
| "truthy (JNum x) = (x \<noteq> 0)"
| "truthy (JStr s) = (s \<noteq> [])"
| "truthy JObject = True"

text \<open>The operator \<open>a || b\<close>.\<close>

definition js_or :: "jsval \<Rightarrow> jsval \<Rightarrow> jsval" where
  "js_or a b = (if truthy a then a else b)"

text \<open>The values that \<open>||\<close> replaces by its right operand.\<close>

definition falsy :: "jsval set" where
  "falsy = {JUndefined, JNull, JBool False, JNum 0, JStr []}"

text \<open>
  A parsed JSON body: an object (with the fields the code reads), \<open>null\<close> (reading a
  field throws a TypeError), or a number, string or boolean (every field reads as
  \<open>undefined\<close>).
\<close>

datatype 'a json_body = JsonObject 'a | JsonNull | JsonPrimitive

section \<open>The tracking hook (client/src/hooks/useAttentionTracking.tsx)\<close>

record tracking_metrics =
  eyeMovements :: jsval
  eyeBlinks :: jsval
  postureChanges :: jsval
  attentivenessScore :: jsval
  facialExpression :: jsval

text \<open>The fields of a frame response that \<open>processVideoFrame\<close> reads.\<close>

record frame_results =
  eye_movement_count :: jsval
  blink_count :: jsval
  posture_change_count :: jsval
  attentiveness_score :: jsval
  facial_expression :: jsval

text \<open>The aggregate returned by the vision service at stop (\<open>TrackingData\<close>).\<close>

record tracking_data =
  td_eyeMovements :: jsval
  td_eyeBlinks :: jsval
  td_postureChanges :: jsval
  td_attentivenessScore :: jsval
  td_facialExpressions :: jsval
  td_postureStates :: jsval
  td_sessionData :: jsval

text \<open>
  What the hook does to the outside: the requests it sends through \<open>lib/api.ts\<close>, the
  toasts it shows (title, description, destructive variant) and the completion event it
  schedules.
\<close>

datatype call =
    ResetTracking
  | GetTrackingResults
  | SaveTrackingResults int int tracking_data
  | ProcessFrame string
  | Toast string string bool
  | TrackingCompleted int int

text \<open>
  The outcomes of the requests, as the hook sees them: a resolved value or a rejection.
\<close>

record gateway =
  gw_health :: "js_exn + bool"
  gw_reset :: "js_exn option"
  gw_frame :: "js_exn + frame_results json_body"
  gw_aggregate :: "js_exn + tracking_data"
  gw_save :: "js_exn option"

text \<open>The hook's React state, and the log of its calls (oldest first).\<close>

record hook_state =
  isTracking :: bool
  metrics :: "tracking_metrics option"
  error :: "string option"
  flaskServerAvailable :: bool
  calls :: "call list"

definition hook_init :: hook_state where
  "hook_init = \<lparr>isTracking = False, metrics = None, error = None,
                 flaskServerAvailable = False, calls = []\<rparr>"

definition emit :: "call list \<Rightarrow> hook_state \<Rightarrow> hook_state" where
  "emit cs h = h\<lparr>calls := calls h @ cs\<rparr>"

definition checkFlaskServer :: "gateway \<Rightarrow> hook_state \<Rightarrow> hook_state \<times> bool" where
  "checkFlaskServer gw h =
     (case gw_health gw of
        Inr isAvailable \<Rightarrow> (h\<lparr>flaskServerAvailable := isAvailable\<rparr>, isAvailable)
      | Inl err \<Rightarrow> (h\<lparr>flaskServerAvailable := False\<rparr>, False))"

text \<open>The \<open>catch\<close> clauses of \<open>startTracking\<close> and \<open>stopTracking\<close>.\<close>

definition tracking_failed :: "js_exn \<Rightarrow> string \<Rightarrow> hook_state \<Rightarrow> hook_state" where
  "tracking_failed err fallback h =
     (let msg = errorMessage err fallback
      in emit [Toast ''Tracking Error'' msg True] (h\<lparr>error := Some msg\<rparr>))"

definition server_unavailable :: string where
  "server_unavailable = ''Attention tracking server is not available. Please try again later.''"

definition startTracking :: "gateway \<Rightarrow> hook_state \<Rightarrow> hook_state \<times> bool" where
  "startTracking gw h =
     (let (h1, isServerAvailable) = checkFlaskServer gw h
      in if \<not> isServerAvailable
         then (tracking_failed (Error server_unavailable) ''Failed to start tracking'' h1,
               False)
         else (case gw_reset gw of
                 Some err \<Rightarrow>
                   (tracking_failed err ''Failed to start tracking'' (emit [ResetTracking] h1),
                    False)
               | None \<Rightarrow>
                   (emit [Toast ''Tracking Started''
                            ''Your attention metrics are now being monitored'' False]
                      ((emit [ResetTracking] h1)
                         \<lparr>isTracking := True, error := None, metrics := None\<rparr>),
                    True)))"

text \<open>
  One invocation of \<open>stopTracking\<close>, run alone to its end. The guard reads the
  \<open>isTracking\<close> of the render that created the callback: the first argument.
\<close>

definition stopTracking :: "bool \<Rightarrow> gateway \<Rightarrow> int \<Rightarrow> int \<Rightarrow> hook_state \<Rightarrow> hook_state" where
  "stopTracking tracking gw uid sid h =
     (if \<not> tracking then h
      else let h1 = emit [GetTrackingResults] (h\<lparr>isTracking := False\<rparr>)
           in case gw_aggregate gw of
                Inl err \<Rightarrow> tracking_failed err ''Failed to stop tracking'' h1
              | Inr results \<Rightarrow>
                  (let h2 = emit [SaveTrackingResults uid sid results] h1
                   in case gw_save gw of
                        Some err \<Rightarrow> tracking_failed err ''Failed to stop tracking'' h2
                      | None \<Rightarrow>
                          emit [TrackingCompleted uid sid,
                                Toast ''Tracking Stopped''
                                  ''Your attention metrics have been saved'' False] h2))"

text \<open>
  \<open>toggleTracking\<close> and the \<open>stopTracking\<close> it calls come from the same render, so
  both read the same \<open>isTracking\<close>.
\<close>

definition toggleTracking :: "gateway \<Rightarrow> int \<Rightarrow> int \<Rightarrow> hook_state \<Rightarrow> hook_state \<times> bool" where
  "toggleTracking gw uid sid h =
     (if isTracking h then (stopTracking (isTracking h) gw uid sid h, False)
      else startTracking gw h)"

subsection \<open>A stop in the mounted hook\<close>

text \<open>
  \<open>stopTracking\<close> is asynchronous: it runs up to the aggregate request, resumes when
  the aggregate arrives, and resumes again when the save is answered. The three parts
  of one invocation, each with the point the invocation has then reached:
\<close>

datatype stop_pc = NotStarted | AwaitingAggregate | AwaitingSave | Finished

definition stop_begin :: "bool \<Rightarrow> hook_state \<Rightarrow> hook_state \<times> stop_pc" where
  "stop_begin tracking h =
     (if \<not> tracking then (h, Finished)
      else (emit [GetTrackingResults] (h\<lparr>isTracking := False\<rparr>), AwaitingAggregate))"

definition stop_on_aggregate ::
  "gateway \<Rightarrow> int \<Rightarrow> int \<Rightarrow> hook_state \<Rightarrow> hook_state \<times> stop_pc" where
  "stop_on_aggregate gw uid sid h =
     (case gw_aggregate gw of
        Inl err \<Rightarrow> (tracking_failed err ''Failed to stop tracking'' h, Finished)
      | Inr results \<Rightarrow> (emit [SaveTrackingResults uid sid results] h, AwaitingSave))"

definition stop_on_save ::
  "gateway \<Rightarrow> int \<Rightarrow> int \<Rightarrow> hook_state \<Rightarrow> hook_state \<times> stop_pc" where
  "stop_on_save gw uid sid h =
     (case gw_save gw of
        Some err \<Rightarrow> (tracking_failed err ''Failed to stop tracking'' h, Finished)
      | None \<Rightarrow>
          (emit [TrackingCompleted uid sid,
                 Toast ''Tracking Stopped'' ''Your attention metrics have been saved'' False] h,
           Finished))"

text \<open>
  The hook's last effect has the dependencies \<open>[isTracking, stopTracking]\<close> and the
  cleanup \<open>if (isTracking) stopTracking()\<close>. The cleanup therefore runs whenever
  \<open>isTracking\<close> changes, with the \<open>isTracking\<close> and the \<open>stopTracking\<close> of the render
  before the change: when tracking goes from on to off it starts a second invocation
  of \<open>stopTracking\<close>, whose guard still reads "on".
\<close>

definition cleanup_run :: "bool \<Rightarrow> bool \<Rightarrow> stop_pc" where
  "cleanup_run before after = (if before \<noteq> after \<and> before then NotStarted else Finished)"

text \<open>
  One step of an invocation. Only the invocation made by the cleanup can be waiting to
  start, and its guard reads "on".
\<close>

definition stop_advance ::
  "gateway \<Rightarrow> int \<Rightarrow> int \<Rightarrow> stop_pc \<Rightarrow> hook_state \<Rightarrow> hook_state \<times> stop_pc" where
  "stop_advance gw uid sid pc h =
     (case pc of
        NotStarted \<Rightarrow> stop_begin True h
      | AwaitingAggregate \<Rightarrow> stop_on_aggregate gw uid sid h
      | AwaitingSave \<Rightarrow> stop_on_save gw uid sid h
      | Finished \<Rightarrow> (h, Finished))"

text \<open>
  Two invocations in flight, each with its own request outcomes. The schedule says
  which of them takes the next step (\<open>True\<close>: the first); a step of an invocation that
  has finished does nothing.
\<close>

fun interleave ::
  "gateway \<Rightarrow> gateway \<Rightarrow> int \<Rightarrow> int \<Rightarrow> bool list \<Rightarrow>
   hook_state \<times> stop_pc \<times> stop_pc \<Rightarrow> hook_state \<times> stop_pc \<times> stop_pc" where
  "interleave gw1 gw2 uid sid [] st = st"
| "interleave gw1 gw2 uid sid (first # rest) (h, pc1, pc2) =
     interleave gw1 gw2 uid sid rest
       (if first then (let (h', pc1') = stop_advance gw1 uid sid pc1 h in (h', pc1', pc2))
        else (let (h', pc2') = stop_advance gw2 uid sid pc2 h in (h', pc1, pc2')))"

text \<open>
  A stop in the mounted hook: the invocation made by the caller starts at once, the
  cleanup's invocation is added when tracking has gone from on to off, the two proceed
  in the order of the schedule, and what is then left of either is run to its end
  (two steps at most for the first, three for the second).
\<close>

definition stop_session_state ::
  "gateway \<Rightarrow> gateway \<Rightarrow> bool list \<Rightarrow> int \<Rightarrow> int \<Rightarrow> hook_state \<Rightarrow>
   hook_state \<times> stop_pc \<times> stop_pc" where
  "stop_session_state gw1 gw2 sched uid sid h =
     (let (h1, pc1) = stop_begin (isTracking h) h;
          pc2 = cleanup_run (isTracking h) (isTracking h1)
      in interleave gw1 gw2 uid sid (sched @ [True, True, False, False, False])
           (h1, pc1, pc2))"

definition stop_session ::
  "gateway \<Rightarrow> gateway \<Rightarrow> bool list \<Rightarrow> int \<Rightarrow> int \<Rightarrow> hook_state \<Rightarrow> hook_state" where
  "stop_session gw1 gw2 sched uid sid h = fst (stop_session_state gw1 gw2 sched uid sid h)"

text \<open>The steps an invocation has left at most.\<close>

fun steps_left :: "stop_pc \<Rightarrow> nat" where
  "steps_left NotStarted = 3"
| "steps_left AwaitingAggregate = 2"
| "steps_left AwaitingSave = 1"
| "steps_left Finished = 0"

text \<open>The aggregate a gateway delivers, if it delivers one.\<close>

definition fetched :: "gateway \<Rightarrow> tracking_data set" where
  "fetched gw = (case gw_aggregate gw of Inl err \<Rightarrow> {} | Inr results \<Rightarrow> {results})"

definition frame_metrics :: "frame_results \<Rightarrow> tracking_metrics" where
  "frame_metrics frameResults =
     \<lparr>eyeMovements = js_or (eye_movement_count frameResults) (JNum 0),
      eyeBlinks = js_or (blink_count frameResults) (JNum 0),
      postureChanges = js_or (posture_change_count frameResults) (JNum 0),
      attentivenessScore = js_or (attentiveness_score frameResults) (JNum 85),
      facialExpression = js_or (facial_expression frameResults) (JStr ''neutral'')\<rparr>"

definition no_fields :: frame_results where
  "no_fields = \<lparr>eye_movement_count = JUndefined, blink_count = JUndefined,
                 posture_change_count = JUndefined, attentiveness_score = JUndefined,
                 facial_expression = JUndefined\<rparr>"

definition processVideoFrame :: "gateway \<Rightarrow> string \<Rightarrow> hook_state \<Rightarrow> hook_state" where
  "processVideoFrame gw frameData h =
     (if \<not> isTracking h \<or> frameData = [] then h
      else let h1 = emit [ProcessFrame frameData] h
           in case gw_frame gw of
                Inl err \<Rightarrow> h1
              | Inr JsonNull \<Rightarrow> h1
              | Inr JsonPrimitive \<Rightarrow> h1\<lparr>metrics := Some (frame_metrics no_fields)\<rparr>
              | Inr (JsonObject frameResults) \<Rightarrow>
                  h1\<lparr>metrics := Some (frame_metrics frameResults)\<rparr>)"

text \<open>The payloads handed to \<open>saveTrackingResults\<close>, oldest first.\<close>

fun saved_payloads :: "call list \<Rightarrow> tracking_data list" where
  "saved_payloads [] = []"
| "saved_payloads (SaveTrackingResults uid sid d # cs) = d # saved_payloads cs"
| "saved_payloads (c # cs) = saved_payloads cs"

text \<open>
  From one hook state to a later one, the payloads handed to \<open>saveTrackingResults\<close>
  have grown by payloads of the given set only.
\<close>

definition grows_by :: "tracking_data set \<Rightarrow> hook_state \<Rightarrow> hook_state \<Rightarrow> bool" where
  "grows_by F h h' \<longleftrightarrow>
     (\<exists>ps. saved_payloads (calls h') = saved_payloads (calls h) @ ps \<and> set ps \<subseteq> F)"

section \<open>The video player's webcam (client/src/components/VideoPlayer.tsx)\<close>

text \<open>
  A camera stream is named by a number. \<open>liveStreams\<close> lists the streams that
  \<open>getUserMedia\<close> has delivered and whose tracks have not been stopped: the camera is
  released when it is empty. \<open>acquired\<close> counts the streams delivered so far and names
  the next one. \<open>onloadedmetadata\<close> tells whether the handler is installed on the video
  element, which is taken to be mounted (\<open>videoRef.current\<close> is set).
\<close>

record player_state =
  usingWebcam :: bool
  isPlaying :: bool
  mediaStreamRef :: "nat option"
  onloadedmetadata :: bool
  liveStreams :: "nat list"
  acquired :: nat
  toasts :: "(string \<times> string \<times> bool) list"

definition player_init :: "bool \<Rightarrow> player_state" where
  "player_init autoPlay =
     \<lparr>usingWebcam = False, isPlaying = autoPlay, mediaStreamRef = None,
      onloadedmetadata = False, liveStreams = [], acquired = 0, toasts = []\<rparr>"

text \<open>
  How the camera request ends: no video input device, a rejection by an \<open>Error\<close> with
  its name and message (the ten-second timeout is one), a rejection by another value,
  or a stream.
\<close>

datatype camera_outcome =
    NoVideoInput
  | CameraError string string
  | CameraRejected
  | CameraStream

definition camera_error_message :: "camera_outcome \<Rightarrow> string" where
  "camera_error_message out =
     (case out of
        CameraError name message \<Rightarrow>
          (if name = ''NotAllowedError'' \<or> name = ''PermissionDeniedError''
           then ''Camera access was denied. Please grant permission in your browser.''
           else if name = ''NotFoundError'' \<or> name = ''DevicesNotFoundError''
           then ''No camera was found on your device.''
           else if name = ''NotReadableError'' \<or> name = ''TrackStartError''
           then ''Your camera is already in use by another application.''
           else if message \<noteq> [] then message
           else ''Please allow camera access for attention tracking'')
      | NoVideoInput \<Rightarrow> ''No video input devices found''
      | _ \<Rightarrow> ''Please allow camera access for attention tracking'')"

text \<open>
  \<open>startWebcam\<close>: the new player state, and whether \<open>onToggleTracking()\<close> was called
  to revert the tracking state.
\<close>

definition startWebcam :: "camera_outcome \<Rightarrow> player_state \<Rightarrow> player_state \<times> bool" where
  "startWebcam out p =
     (case out of
        CameraStream \<Rightarrow>
          (p\<lparr>mediaStreamRef := Some (acquired p),
             liveStreams := liveStreams p @ [acquired p],
             acquired := acquired p + 1,
             onloadedmetadata := True,
             toasts := toasts p @ [(''Camera Active'',
                ''Your webcam is now being used for attention tracking'', False)]\<rparr>, False)
      | _ \<Rightarrow>
          (p\<lparr>toasts := toasts p @ [(''Camera Access Failed'', camera_error_message out, True)]\<rparr>,
           True))"

text \<open>
  The \<open>loadedmetadata\<close> event of the video element, with whether \<open>play()\<close> resolves.
  Only the resolved promise sets \<open>usingWebcam\<close>.
\<close>

definition loadedmetadata :: "bool \<Rightarrow> player_state \<Rightarrow> player_state" where
  "loadedmetadata playResolves p =
     (if onloadedmetadata p \<and> playResolves then p\<lparr>usingWebcam := True, isPlaying := True\<rparr>
      else p)"

text \<open>Stopping every track of the stream the ref holds, and clearing the ref.\<close>

definition release_stream :: "player_state \<Rightarrow> player_state" where
  "release_stream p =
     (case mediaStreamRef p of
        Some st \<Rightarrow> p\<lparr>liveStreams := filter (\<lambda>x. x \<noteq> st) (liveStreams p), mediaStreamRef := None\<rparr>
      | None \<Rightarrow> p)"

definition stopWebcam :: "player_state \<Rightarrow> player_state" where
  "stopWebcam p =
     (let p1 = release_stream p
      in p1\<lparr>onloadedmetadata := False, usingWebcam := False,
            toasts := toasts p1 @ [(''Tracking Stopped'',
               ''Your webcam has been turned off'', False)]\<rparr>)"

text \<open>The effect that runs when \<open>isTracking\<close> changes.\<close>

definition webcam_effect ::
  "bool \<Rightarrow> camera_outcome \<Rightarrow> player_state \<Rightarrow> player_state \<times> bool" where
  "webcam_effect tracking out p =
     (if tracking \<and> \<not> usingWebcam p then startWebcam out p
      else if \<not> tracking \<and> usingWebcam p then (stopWebcam p, False)
      else (p, False))"

text \<open>The cleanup that runs when the player unmounts.\<close>

definition player_unmount :: "player_state \<Rightarrow> player_state" where
  "player_unmount p = (release_stream p)\<lparr>onloadedmetadata := False\<rparr>"

section \<open>The classroom page: hook and player together\<close>

record classroom =
  hook :: hook_state
  player :: player_state

definition classroom_init :: classroom where
  "classroom_init = \<lparr>hook = hook_init, player = player_init False\<rparr>"

text \<open>
  A click on the tracking button (\<open>onToggleTracking\<close>), followed by the effects that
  run when \<open>isTracking\<close> has changed: the player's webcam effect and the hook's cleanup.
  A stop is the caller's invocation of \<open>stopTracking\<close> together with the cleanup's
  (outcomes \<open>gw1\<close> and \<open>gw2\<close>, in the order of the schedule). When the camera request
  fails, \<open>startWebcam\<close> calls \<open>onToggleTracking()\<close> of the render in which tracking
  was on, which is such a stop; the webcam effect then runs once more with tracking off.
\<close>

definition classroom_toggle ::
  "gateway \<Rightarrow> gateway \<Rightarrow> bool list \<Rightarrow> camera_outcome \<Rightarrow> int \<Rightarrow> int \<Rightarrow> classroom \<Rightarrow> classroom" where
  "classroom_toggle gw1 gw2 sched out uid sid c =
     (let h1 = (if isTracking (hook c) then stop_session gw1 gw2 sched uid sid (hook c)
                else fst (toggleTracking gw1 uid sid (hook c)))
      in if isTracking h1 = isTracking (hook c) then c\<lparr>hook := h1\<rparr>
         else let (p1, revert) = webcam_effect (isTracking h1) out (player c)
              in if revert
                 then \<lparr>hook = stop_session gw1 gw2 sched uid sid h1,
                       player = fst (webcam_effect False out p1)\<rparr>
                 else \<lparr>hook = h1, player = p1\<rparr>)"

definition classroom_loadedmetadata :: "bool \<Rightarrow> classroom \<Rightarrow> classroom" where
  "classroom_loadedmetadata playResolves c =
     c\<lparr>player := loadedmetadata playResolves (player c)\<rparr>"

section \<open>The results page's percentages (client/src/pages/Results.tsx)\<close>

subsection \<open>Numbers\<close>

text \<open>
  A JavaScript number is an IEEE 754 double: a finite value (kept as the rational it
  denotes), \<open>NaN\<close> or an infinity. The sign of a zero is not tracked; it does not change
  what the page shows. Every arithmetic operation rounds its exact result to the nearest
  double, ties to the even significand.
\<close>

datatype jsnum = Num rat | NaN | PosInf | NegInf

text \<open>The number of binary digits of a positive integer.\<close>

function bit_length :: "int \<Rightarrow> int" where
  "bit_length n = (if n \<le> 0 then 0 else 1 + bit_length (n div 2))"
  by pat_completeness auto
termination
  by (relation "measure nat") auto

declare bit_length.simps [simp del]

text \<open>For \<open>a > 0\<close>, the integer \<open>e\<close> with \<open>2^e \<le> a < 2^(e+1)\<close>.\<close>

definition floor_log2 :: "rat \<Rightarrow> int" where
  "floor_log2 a =
     (if 1 \<le> a then bit_length \<lfloor>a\<rfloor> - 1 else - bit_length (\<lceil>1 / a\<rceil> - 1))"

definition pow2 :: "int \<Rightarrow> rat" where
  "pow2 k = (if 0 \<le> k then 2 ^ nat k else 1 / 2 ^ nat (- k))"

definition round_half_even :: "rat \<Rightarrow> int" where
  "round_half_even m =
     (let f = \<lfloor>m\<rfloor>; d = m - of_int f
      in if d < 1 / 2 then f else if 1 / 2 < d then f + 1
         else if even f then f else f + 1)"

text \<open>
  Rounding a rational to a double: 53 significant bits, the least exponent \<open>-1022\<close>
  (below it the spacing stays \<open>2^-1074\<close>), and overflow to an infinity from \<open>2^1024\<close>.
\<close>

definition to_double :: "rat \<Rightarrow> jsnum" where
  "to_double q =
     (if q = 0 then Num 0
      else let a = \<bar>q\<bar>;
               e = max (floor_log2 a) (- 1022);
               ulp = pow2 (e - 52);
               r = of_int (round_half_even (a / ulp)) * ulp
           in if pow2 1024 \<le> r then (if 0 < q then PosInf else NegInf)
              else Num (if 0 < q then r else - r))"

fun js_add :: "jsnum \<Rightarrow> jsnum \<Rightarrow> jsnum" where
  "js_add (Num a) (Num b) = to_double (a + b)"
| "js_add NaN y = NaN"
| "js_add x NaN = NaN"
| "js_add PosInf NegInf = NaN"
| "js_add NegInf PosInf = NaN"
| "js_add PosInf y = PosInf"
| "js_add NegInf y = NegInf"
| "js_add x PosInf = PosInf"
| "js_add x NegInf = NegInf"

fun js_neg :: "jsnum \<Rightarrow> jsnum" where
  "js_neg (Num a) = Num (- a)"
| "js_neg NaN = NaN"
| "js_neg PosInf = NegInf"
| "js_neg NegInf = PosInf"

fun js_div :: "jsnum \<Rightarrow> jsnum \<Rightarrow> jsnum" where
  "js_div (Num a) (Num b) =
     (if b = 0 then (if a = 0 then NaN else if 0 < a then PosInf else NegInf)
      else to_double (a / b))"
| "js_div NaN y = NaN"
| "js_div x NaN = NaN"
| "js_div (Num a) y = Num 0"
| "js_div x (Num b) = (if 0 \<le> b then x else js_neg x)"
| "js_div x y = NaN"

fun js_mul :: "jsnum \<Rightarrow> jsnum \<Rightarrow> jsnum" where
  "js_mul (Num a) (Num b) = to_double (a * b)"
| "js_mul NaN y = NaN"
| "js_mul x NaN = NaN"
| "js_mul (Num a) y = (if a = 0 then NaN else if 0 < a then y else js_neg y)"
| "js_mul x (Num b) = (if b = 0 then NaN else if 0 < b then x else js_neg x)"
| "js_mul PosInf y = y"
| "js_mul NegInf y = js_neg y"

text \<open>\<open>Math.round\<close>: the nearest integer, a tie going up.\<close>

fun Math_round :: "jsnum \<Rightarrow> jsnum" where
  "Math_round (Num a) = Num (of_int \<lfloor>a + 1 / 2\<rfloor>)"
| "Math_round x = x"

subsection \<open>The histograms\<close>

text \<open>\<open>Math.round(x / (a + b + c + d) * 100)\<close>.\<close>

definition percentage :: "jsnum \<Rightarrow> jsnum \<Rightarrow> jsnum \<Rightarrow> jsnum \<Rightarrow> jsnum \<Rightarrow> jsnum" where
  "percentage x a b c d =
     Math_round (js_mul (js_div x (js_add (js_add (js_add a b) c) d)) (Num 100))"

text \<open>
  A stored histogram, with the four entries the page reads as the number literals of
  the stored JSON; \<open>JSON.parse\<close> turns each into the nearest double.
\<close>

record facial_expressions =
  fe_neutral :: rat
  fe_focused :: rat
  fe_confused :: rat
  fe_distracted :: rat

record posture_states =
  ps_upright :: rat
  ps_leaning_forward :: rat
  ps_slouching :: rat
  ps_away :: rat

text \<open>
  The four numbers shown for each histogram, in the order of the page; nothing is shown
  when the parsed session data has no such histogram.
\<close>

definition facial_percentages :: "facial_expressions option \<Rightarrow> jsnum list option" where
  "facial_percentages h =
     (case h of
        None \<Rightarrow> None
      | Some e \<Rightarrow>
          (let pc = (\<lambda>x. percentage (to_double x) (to_double (fe_neutral e))
                           (to_double (fe_focused e)) (to_double (fe_confused e))
                           (to_double (fe_distracted e)))
           in Some [pc (fe_neutral e), pc (fe_focused e), pc (fe_confused e),
                    pc (fe_distracted e)]))"

definition posture_percentages :: "posture_states option \<Rightarrow> jsnum list option" where
  "posture_percentages h =
     (case h of
        None \<Rightarrow> None
      | Some e \<Rightarrow>
          (let pc = (\<lambda>x. percentage (to_double x) (to_double (ps_upright e))
                           (to_double (ps_leaning_forward e)) (to_double (ps_slouching e))
                           (to_double (ps_away e)))
           in Some [pc (ps_upright e), pc (ps_leaning_forward e), pc (ps_slouching e),
                    pc (ps_away e)]))"

section \<open>The documented scoring weights\<close>

text \<open>
  The blend as the specification words it: facial expression 70%, eye movement 15%,
  blink rate 10%, posture 5%, of four component scores.
\<close>

definition spec_weighted_blend :: "rat \<Rightarrow> rat \<Rightarrow> rat \<Rightarrow> rat \<Rightarrow> rat" where
  "spec_weighted_blend expression eye blink posture =
     70 / 100 * expression + 15 / 100 * eye + 10 / 100 * blink + 5 / 100 * posture"

section \<open>Concrete sessions\<close>

text \<open>A gateway whose health check reports the vision service unavailable.\<close>

definition gateway_down :: gateway where
  "gateway_down =
     \<lparr>gw_health = Inr False, gw_reset = None, gw_frame = Inl (Error ''Failed to process frame: Bad Gateway''),
      gw_aggregate = Inl (Error ''Failed to get tracking results: Bad Gateway''),
      gw_save = None\<rparr>"

text \<open>
  Two frame responses with raw signals and no score, alike but for the expression.
\<close>

definition frame_distracted :: frame_results where
  "frame_distracted =
     \<lparr>eye_movement_count = JNum 40, blink_count = JNum 30, posture_change_count = JNum 20,
      attentiveness_score = JUndefined, facial_expression = JStr ''distracted''\<rparr>"

definition frame_focused :: frame_results where
  "frame_focused =
     \<lparr>eye_movement_count = JNum 40, blink_count = JNum 30, posture_change_count = JNum 20,
      attentiveness_score = JUndefined, facial_expression = JStr ''focused''\<rparr>"

text \<open>A frame response in which the service reports a score of 0.\<close>

definition frame_score_zero :: frame_results where
  "frame_score_zero =
     \<lparr>eye_movement_count = JNum 40, blink_count = JNum 30, posture_change_count = JNum 20,
      attentiveness_score = JNum 0, facial_expression = JStr ''distracted''\<rparr>"

text \<open>An aggregate with raw counts and histograms and no score.\<close>

definition aggregate_counts_only :: tracking_data where
  "aggregate_counts_only =
     \<lparr>td_eyeMovements = JNum 40, td_eyeBlinks = JNum 30, td_postureChanges = JNum 20,
      td_attentivenessScore = JUndefined, td_facialExpressions = JObject,
      td_postureStates = JObject, td_sessionData = JStr ''{}''\<rparr>"

text \<open>A gateway on which every request succeeds, answering with the values above.\<close>

definition gateway_up :: gateway where
  "gateway_up =
     \<lparr>gw_health = Inr True, gw_reset = None, gw_frame = Inr (JsonObject frame_distracted),
      gw_aggregate = Inr aggregate_counts_only, gw_save = None\<rparr>"

text \<open>The same gateway when the aggregate cannot be fetched.\<close>

definition gateway_aggregate_fails :: gateway where
  "gateway_aggregate_fails =
     gateway_up\<lparr>gw_aggregate := Inl (Error ''Failed to get tracking results: Bad Gateway'')\<rparr>"

text \<open>The hook after a successful start.\<close>

definition hook_active :: hook_state where
  "hook_active = fst (startTracking gateway_up hook_init)"

text \<open>
  The score the tracking panel shows after one frame response with the given fields has
  been applied to the active hook.
\<close>

definition shown_score :: "frame_results \<Rightarrow> jsval option" where
  "shown_score fr =
     map_option attentivenessScore
       (metrics (processVideoFrame (gateway_up\<lparr>gw_frame := Inr (JsonObject fr)\<rparr>)
          ''data:image/jpeg;base64,AA'' hook_active))"

text \<open>
  The classroom after a successful start in which the camera delivered a stream, and
  then after the video element's \<open>play()\<close> was rejected.
\<close>

definition classroom_started :: classroom where
  "classroom_started =
     classroom_toggle gateway_up gateway_up [] CameraStream 1 1 classroom_init"

definition classroom_play_rejected :: classroom where
  "classroom_play_rejected = classroom_loadedmetadata False classroom_started"

section \<open>Properties of the repository\<close>

subsection \<open>Fresh keys: every create appends\<close>

lemma map_set_fresh: "keys_below m n \<Longrightarrow> map_set m n v = m @ [(n, v)]"
  by (induction m) (auto simp: keys_below_def map_keys_def sorted_wrt_append)

lemma keys_below_snoc: "keys_below m n \<Longrightarrow> keys_below (m @ [(n, v)]) (n + 1)"
  by (auto simp: keys_below_def map_keys_def sorted_wrt_append)

lemma keys_below_distinct: "keys_below m n \<Longrightarrow> distinct (map_keys m)"
  by (auto simp: keys_below_def sorted_wrt_append
      intro: strict_sorted_iff [THEN iffD1, THEN conjunct2])

lemma storage_inv_apply_op: "storage_inv s \<Longrightarrow> storage_inv (fst (apply_op s x))"
  by (cases x)
     (auto simp: storage_inv_def createUser_def createSubject_def enrollUserInSubject_def
        saveTrackingResult_def Let_def map_set_fresh keys_below_snoc)

lemma storage_inv_run_ops: "storage_inv s \<Longrightarrow> storage_inv (fst (run_ops s xs))"
proof (induction xs arbitrary: s)
  case Nil
  then show ?case by simp
next
  case (Cons x xs)
  from Cons.IH [OF storage_inv_apply_op [OF Cons.prems, of x]]
  show ?case by (simp add: split_beta Let_def)
qed

lemma storage_inv_empty: "storage_inv MemStorage_empty"
  by (simp add: storage_inv_def MemStorage_empty_def keys_below_def map_keys_def)

text \<open>The constructor is the seeding sequence run on the empty store.\<close>

lemma MemStorage_new_run: "MemStorage_new = fst (run_ops MemStorage_empty seed_ops)"
  by (simp add: MemStorage_new_def seedUsers_def seedSubjects_def seedEnrollments_def
      seed_ops_def demoUsers_def demoSubjects_def demoEnrollments_def split_beta Let_def)

lemma storage_inv_new: "storage_inv MemStorage_new"
  unfolding MemStorage_new_run by (rule storage_inv_run_ops [OF storage_inv_empty])

lemma trackingResults_new:
  "trackingResults MemStorage_new = [] \<and> trackingResultId MemStorage_new = 1"
  by (simp add: MemStorage_new_def seedUsers_def seedSubjects_def seedEnrollments_def
      demoUsers_def demoSubjects_def demoEnrollments_def MemStorage_empty_def
      createUser_def createSubject_def enrollUserInSubject_def Let_def)

subsection \<open>Enrollment membership\<close>

lemma stored_iff_value:
  assumes "keys_below m n"
  shows "(\<exists>i. map_get m i = Some e) \<longleftrightarrow> e \<in> set (map_values m)"
proof -
  have "distinct (map fst m)"
    using keys_below_distinct [OF assms] by (simp add: map_keys_def)
  then have "\<And>i. map_of m i = Some e \<longleftrightarrow> (i, e) \<in> set m"
    by simp
  then show ?thesis
    by (force simp: map_get_def map_values_def)
qed

text \<open>
  Claim C1. In the store as constructed and after any sequence of create calls,
  \<open>isUserEnrolledInSubject userId subjectId\<close> is true exactly when the enrollments map
  holds, under some id, an Enrollment of that user in that subject.
\<close>

theorem isUserEnrolledInSubject_iff_stored:
  "isUserEnrolledInSubject (fst (run_ops MemStorage_new ops)) uid sid \<longleftrightarrow>
   (\<exists>i e. map_get (enrollments (fst (run_ops MemStorage_new ops))) i = Some e \<and>
          e_userId e = uid \<and> e_subjectId e = sid)"
proof -
  let ?s = "fst (run_ops MemStorage_new ops)"
  have "storage_inv ?s"
    by (rule storage_inv_run_ops [OF storage_inv_new])
  then have kb: "keys_below (enrollments ?s) (enrollmentId ?s)"
    by (simp add: storage_inv_def)
  have "isUserEnrolledInSubject ?s uid sid \<longleftrightarrow>
        (\<exists>e \<in> set (map_values (enrollments ?s)). e_userId e = uid \<and> e_subjectId e = sid)"
    by (simp add: isUserEnrolledInSubject_def list_ex_iff)
  also have "\<dots> \<longleftrightarrow> (\<exists>e. (\<exists>i. map_get (enrollments ?s) i = Some e) \<and>
                          e_userId e = uid \<and> e_subjectId e = sid)"
    using stored_iff_value [OF kb] by blast
  finally show ?thesis by blast
qed

subsection \<open>Tracking history\<close>

lemma apply_op_trackingResults:
  "storage_inv s \<Longrightarrow>
   map_values (trackingResults (fst (apply_op s x))) =
     map_values (trackingResults s) @ saved_results [snd (apply_op s x)]"
  by (cases x)
     (auto simp: storage_inv_def createUser_def createSubject_def enrollUserInSubject_def
        saveTrackingResult_def Let_def map_set_fresh map_values_def)

lemma saved_results_Cons: "saved_results (c # cs) = saved_results [c] @ saved_results cs"
  by (cases c) simp_all

lemma run_ops_trackingResults:
  "storage_inv s \<Longrightarrow>
   map_values (trackingResults (fst (run_ops s xs))) =
     map_values (trackingResults s) @ saved_results (snd (run_ops s xs))"
proof (induction xs arbitrary: s)
  case Nil
  then show ?case by simp
next
  case (Cons x xs)
  have inv': "storage_inv (fst (apply_op s x))"
    by (rule storage_inv_apply_op [OF Cons.prems])
  have "map_values (trackingResults (fst (run_ops s (x # xs)))) =
        map_values (trackingResults (fst (run_ops (fst (apply_op s x)) xs)))"
    by (simp add: split_beta Let_def)
  also have "\<dots> = map_values (trackingResults (fst (apply_op s x)))
                 @ saved_results (snd (run_ops (fst (apply_op s x)) xs))"
    by (rule Cons.IH [OF inv'])
  also have "\<dots> = map_values (trackingResults s) @ saved_results [snd (apply_op s x)]
                 @ saved_results (snd (run_ops (fst (apply_op s x)) xs))"
    by (simp add: apply_op_trackingResults [OF Cons.prems])
  also have "\<dots> = map_values (trackingResults s) @ saved_results (snd (run_ops s (x # xs)))"
    using saved_results_Cons [of "snd (apply_op s x)" "snd (run_ops (fst (apply_op s x)) xs)"]
    by (simp add: split_beta Let_def)
  finally show ?case .
qed

lemma latestResult_last: "latestResult rs = (if rs = [] then None else Some (last rs))"
  by (simp add: latestResult_def last_conv_nth)

text \<open>
  Claim C7. After any sequence of create calls on the constructed store,
  \<open>getTrackingResultByUserAndSubject userId subjectId\<close> returns exactly the records that
  the \<open>saveTrackingResult\<close> calls for that user and subject returned, in the order of the
  calls, and the page's latest result is the last of them: the most recently saved.
\<close>

theorem tracking_history_in_creation_order:
  "getTrackingResultByUserAndSubject (fst (run_ops MemStorage_new ops)) uid sid =
     filter (\<lambda>r. t_userId r = uid \<and> t_subjectId r = sid)
       (saved_results (snd (run_ops MemStorage_new ops))) \<and>
   latestResult (getTrackingResultByUserAndSubject (fst (run_ops MemStorage_new ops)) uid sid) =
     (if filter (\<lambda>r. t_userId r = uid \<and> t_subjectId r = sid)
           (saved_results (snd (run_ops MemStorage_new ops))) = [] then None
      else Some (last (filter (\<lambda>r. t_userId r = uid \<and> t_subjectId r = sid)
                         (saved_results (snd (run_ops MemStorage_new ops))))))"
proof -
  have "map_values (trackingResults (fst (run_ops MemStorage_new ops))) =
        saved_results (snd (run_ops MemStorage_new ops))"
    using run_ops_trackingResults [OF storage_inv_new, of ops]
    by (simp add: trackingResults_new map_values_def)
  then have "getTrackingResultByUserAndSubject (fst (run_ops MemStorage_new ops)) uid sid =
     filter (\<lambda>r. t_userId r = uid \<and> t_subjectId r = sid)
       (saved_results (snd (run_ops MemStorage_new ops)))"
    by (simp add: getTrackingResultByUserAndSubject_def)
  then show ?thesis
    by (simp add: latestResult_last)
qed

text \<open>
  Scenario C of the specification: two sessions saved in a row for user 2 and subject 3
  come back in that order, and the second is the latest.
\<close>

lemma scenario_C:
  "map t_id (getTrackingResultByUserAndSubject
      (fst (run_ops MemStorage_new
         [SaveTrackingResult \<lparr>it_id = None, it_userId = 2, it_subjectId = 3, it_sessionDate = 0,
            it_startTime = 0, it_endTime = 60, it_eyeMovementCount = 4, it_eyeBlinkCount = 15,
            it_postureChangeCount = 1, it_attentivenessScore = 80, it_sessionData = ''{}''\<rparr>,
          SaveTrackingResult \<lparr>it_id = None, it_userId = 2, it_subjectId = 3, it_sessionDate = 0,
            it_startTime = 90, it_endTime = 120, it_eyeMovementCount = 7, it_eyeBlinkCount = 9,
            it_postureChangeCount = 2, it_attentivenessScore = 70, it_sessionData = ''{}''\<rparr>])) 2 3)
   = [1, 2]"
  by (simp add: getTrackingResultByUserAndSubject_def saveTrackingResult_def Let_def
      trackingResults_new map_values_def)

subsection \<open>Generated ids\<close>

lemma counter_apply_op:
  "counter k (fst (apply_op s x)) =
     (if created_entity (snd (apply_op s x)) = k then counter k s + 1 else counter k s)"
  by (cases x; cases k)
     (simp_all add: createUser_def createSubject_def enrollUserInSubject_def
        saveTrackingResult_def Let_def)

lemma id_apply_op:
  "created_id (snd (apply_op s x)) = counter (created_entity (snd (apply_op s x))) s"
  by (cases x)
     (simp_all add: createUser_def createSubject_def enrollUserInSubject_def
        saveTrackingResult_def Let_def)

lemma issued_ids_run_ops:
  "sorted_wrt (<) (issued_ids k (snd (run_ops s xs))) \<and>
   list_all (\<lambda>i. counter k s \<le> i) (issued_ids k (snd (run_ops s xs)))"
proof (induction xs arbitrary: s)
  case Nil
  then show ?case by (simp add: issued_ids_def)
next
  case (Cons x xs)
  let ?s' = "fst (apply_op s x)" and ?c = "snd (apply_op s x)"
  have IH: "sorted_wrt (<) (issued_ids k (snd (run_ops ?s' xs)))"
     "list_all (\<lambda>i. counter k ?s' \<le> i) (issued_ids k (snd (run_ops ?s' xs)))"
    using Cons.IH [of ?s'] by simp_all
  have unf: "snd (run_ops s (x # xs)) = ?c # snd (run_ops ?s' xs)"
    by (simp add: split_beta Let_def)
  show ?case
  proof (cases "created_entity ?c = k")
    case True
    then have "counter k ?s' = counter k s + 1" "created_id ?c = counter k s"
      using counter_apply_op [of k s x] id_apply_op [of s x] by simp_all
    with IH True show ?thesis
      unfolding unf by (auto simp: issued_ids_def list_all_iff)
  next
    case False
    then have "counter k ?s' = counter k s"
      using counter_apply_op [of k s x] by simp
    with IH False show ?thesis
      unfolding unf by (auto simp: issued_ids_def list_all_iff)
  qed
qed

text \<open>
  Claim C8. Over the whole life of a store, from the empty maps through the constructor's
  seeding and any later sequence of \<open>createUser\<close>, \<open>createSubject\<close>,
  \<open>enrollUserInSubject\<close> and \<open>saveTrackingResult\<close> calls, the ids issued for one entity
  type ascend strictly in the order of issue: each is greater than all issued before it,
  and none is issued twice.
\<close>

theorem issued_ids_strictly_increasing:
  "sorted_wrt (<) (issued_ids k (snd (run_ops MemStorage_empty (seed_ops @ ops))))"
  using issued_ids_run_ops [of k MemStorage_empty "seed_ops @ ops"] by simp

subsection \<open>Usernames and emails\<close>

text \<open>
  Claim C9. The schema declares \<open>username\<close> and \<open>email\<close> unique, but \<open>createUser\<close>
  stores whatever it is given: creating a user with the username and email of the seeded
  user \<open>john_doe\<close> leaves two users with that username and that email.
\<close>

theorem createUser_duplicates_username_and_email:
  "map u_username (map_values (users (fst (createUser MemStorage_new
      \<lparr>iu_id = None, iu_username = ''john_doe'', iu_email = ''john@vle.edu'',
       iu_password = ''student999''\<rparr>)))) =
   [''john_doe'', ''emma_smith'', ''mike_jones'', ''sara_wilson'', ''alex_brown'', ''john_doe''] \<and>
   map u_email (map_values (users (fst (createUser MemStorage_new
      \<lparr>iu_id = None, iu_username = ''john_doe'', iu_email = ''john@vle.edu'',
       iu_password = ''student999''\<rparr>)))) =
   [''john@vle.edu'', ''emma@vle.edu'', ''mike@vle.edu'', ''sara@vle.edu'', ''alex@vle.edu'',
    ''john@vle.edu'']"
  by (simp add: MemStorage_new_def seedUsers_def seedSubjects_def seedEnrollments_def
      demoUsers_def demoSubjects_def demoEnrollments_def MemStorage_empty_def
      createUser_def createSubject_def enrollUserInSubject_def Let_def map_values_def)

section \<open>Properties of the tracking session\<close>





lemma saved_payloads_append: "saved_payloads (xs @ ys) = saved_payloads xs @ saved_payloads ys"
  by (induction xs rule: saved_payloads.induct) simp_all

lemma hook_active_eval:
  "hook_active =
     \<lparr>isTracking = True, metrics = None, error = None, flaskServerAvailable = True,
      calls = [ResetTracking,
               Toast ''Tracking Started'' ''Your attention metrics are now being monitored''
                 False]\<rparr>"
  by (simp add: hook_active_def startTracking_def checkFlaskServer_def gateway_up_def
      hook_init_def emit_def)

subsection \<open>Both invocations of a stop\<close>

text \<open>The three parts, taken one after the other, are one invocation.\<close>

lemma stopTracking_parts:
  "stopTracking True gw uid sid h =
     fst (interleave gw gw uid sid [True, True, True] (h, NotStarted, Finished))"
  by (cases "gw_aggregate gw"; cases "gw_save gw")
     (simp_all add: stopTracking_def stop_advance_def stop_begin_def stop_on_aggregate_def
        stop_on_save_def Let_def)

text \<open>Once tracking is off, no step of a stop turns it on again.\<close>

lemma stop_advance_off:
  "\<not> isTracking h \<Longrightarrow> \<not> isTracking (fst (stop_advance gw uid sid pc h))"
  by (cases pc; cases "gw_aggregate gw"; cases "gw_save gw")
     (simp_all add: stop_advance_def stop_begin_def stop_on_aggregate_def stop_on_save_def
        tracking_failed_def emit_def Let_def)

lemma interleave_off:
  "\<not> isTracking (fst st) \<Longrightarrow> \<not> isTracking (fst (interleave gw1 gw2 uid sid sched st))"
proof (induction sched arbitrary: st)
  case Nil
  then show ?case by simp
next
  case (Cons b bs)
  obtain h pc1 pc2 where st: "st = (h, pc1, pc2)" by (cases st)
  show ?case
    using Cons.prems stop_advance_off [of h gw1 uid sid pc1] stop_advance_off [of h gw2 uid sid pc2]
    by (cases b) (auto simp: st split_beta intro!: Cons.IH)
qed

lemma stop_session_off: "\<not> isTracking (stop_session gw1 gw2 sched uid sid h)"
  unfolding stop_session_def stop_session_state_def
  by (cases "isTracking h")
     (auto simp: stop_begin_def emit_def Let_def intro!: interleave_off)

text \<open>
  Whatever the schedule, both invocations have finished when the stop is over.
\<close>

lemma interleave_append:
  "interleave gw1 gw2 uid sid (xs @ ys) st =
     interleave gw1 gw2 uid sid ys (interleave gw1 gw2 uid sid xs st)"
proof (induction xs arbitrary: st)
  case Nil
  then show ?case by simp
next
  case (Cons b bs)
  obtain h pc1 pc2 where st: "st = (h, pc1, pc2)" by (cases st)
  show ?case by (simp add: st Cons.IH)
qed


lemma stop_advance_steps:
  "steps_left (snd (stop_advance gw uid sid pc h)) \<le> steps_left pc - 1"
  by (cases pc; cases "gw_aggregate gw"; cases "gw_save gw")
     (simp_all add: stop_advance_def stop_begin_def stop_on_aggregate_def stop_on_save_def)

lemma interleave_steps:
  "steps_left (fst (snd (interleave gw1 gw2 uid sid sched st))) \<le> steps_left (fst (snd st)) \<and>
   steps_left (snd (snd (interleave gw1 gw2 uid sid sched st))) \<le> steps_left (snd (snd st))"
proof (induction sched arbitrary: st)
  case Nil
  then show ?case by simp
next
  case (Cons b bs)
  obtain h pc1 pc2 where st: "st = (h, pc1, pc2)" by (cases st)
  show ?case
  proof (cases b)
    case True
    let ?st' = "(fst (stop_advance gw1 uid sid pc1 h), snd (stop_advance gw1 uid sid pc1 h), pc2)"
    have "interleave gw1 gw2 uid sid (b # bs) st = interleave gw1 gw2 uid sid bs ?st'"
      by (simp add: st True split_beta)
    with Cons.IH [of ?st'] stop_advance_steps [of gw1 uid sid pc1 h] show ?thesis
      by (simp add: st; arith)
  next
    case False
    let ?st' = "(fst (stop_advance gw2 uid sid pc2 h), pc1, snd (stop_advance gw2 uid sid pc2 h))"
    have "interleave gw1 gw2 uid sid (b # bs) st = interleave gw1 gw2 uid sid bs ?st'"
      by (simp add: st False split_beta)
    with Cons.IH [of ?st'] stop_advance_steps [of gw2 uid sid pc2 h] show ?thesis
      by (simp add: st; arith)
  qed
qed

lemma steps_left_0: "steps_left pc = 0 \<longleftrightarrow> pc = Finished"
  by (cases pc) simp_all

lemma settle_finishes:
  assumes "steps_left pc1 \<le> 2"
  shows "snd (interleave gw1 gw2 uid sid [True, True, False, False, False] (h, pc1, pc2)) =
           (Finished, Finished)"
proof -
  define a1 where "a1 = stop_advance gw1 uid sid pc1 h"
  define a2 where "a2 = stop_advance gw1 uid sid (snd a1) (fst a1)"
  define b1 where "b1 = stop_advance gw2 uid sid pc2 (fst a2)"
  define b2 where "b2 = stop_advance gw2 uid sid (snd b1) (fst b1)"
  define b3 where "b3 = stop_advance gw2 uid sid (snd b2) (fst b2)"
  have "steps_left (snd a1) \<le> 1"
    using stop_advance_steps [of gw1 uid sid pc1 h] assms by (simp add: a1_def)
  then have "steps_left (snd a2) = 0"
    using stop_advance_steps [of gw1 uid sid "snd a1" "fst a1"] by (simp add: a2_def)
  moreover have "steps_left pc2 \<le> 3" by (cases pc2) simp_all
  then have "steps_left (snd b1) \<le> 2"
    using stop_advance_steps [of gw2 uid sid pc2 "fst a2"] by (simp add: b1_def)
  then have "steps_left (snd b2) \<le> 1"
    using stop_advance_steps [of gw2 uid sid "snd b1" "fst b1"] by (simp add: b2_def)
  then have "steps_left (snd b3) = 0"
    using stop_advance_steps [of gw2 uid sid "snd b2" "fst b2"] by (simp add: b3_def)
  ultimately have "snd a2 = Finished" "snd b3 = Finished"
    by (simp_all add: steps_left_0)
  then show ?thesis
    by (simp add: split_beta a1_def a2_def b1_def b2_def b3_def)
qed

lemma stop_session_completes:
  "snd (stop_session_state gw1 gw2 sched uid sid h) = (Finished, Finished)"
proof -
  obtain h1 pc1 where b: "stop_begin (isTracking h) h = (h1, pc1)"
    by (cases "stop_begin (isTracking h) h")
  have le: "steps_left pc1 \<le> 2"
    using b by (auto simp: stop_begin_def split: if_splits)
  define st where
    "st = interleave gw1 gw2 uid sid sched (h1, pc1, cleanup_run (isTracking h) (isTracking h1))"
  have "steps_left (fst (snd st)) \<le> 2"
    using interleave_steps [of gw1 gw2 uid sid sched
        "(h1, pc1, cleanup_run (isTracking h) (isTracking h1))"] le
    by (simp add: st_def)
  then have "snd (interleave gw1 gw2 uid sid [True, True, False, False, False]
               (fst st, fst (snd st), snd (snd st))) = (Finished, Finished)"
    by (rule settle_finishes)
  then show ?thesis
    by (simp add: stop_session_state_def b interleave_append st_def)
qed



text \<open>
  Whatever the schedule, the payloads handed to \<open>saveTrackingResults\<close> during a stop
  are aggregates that were fetched, as fetched.
\<close>

lemma grows_by_refl: "grows_by F h h"
  by (simp add: grows_by_def)

lemma grows_by_trans: "grows_by F h h' \<Longrightarrow> grows_by F h' h'' \<Longrightarrow> grows_by F h h''"
  by (auto simp: grows_by_def)

lemma stop_advance_grows:
  "grows_by (fetched gw) h (fst (stop_advance gw uid sid pc h))"
  by (cases pc; cases "gw_aggregate gw"; cases "gw_save gw")
     (simp_all add: grows_by_def stop_advance_def stop_begin_def stop_on_aggregate_def
        stop_on_save_def tracking_failed_def emit_def Let_def saved_payloads_append fetched_def)

lemma grows_by_mono: "grows_by F h h' \<Longrightarrow> F \<subseteq> G \<Longrightarrow> grows_by G h h'"
  by (auto simp: grows_by_def)

lemma interleave_grows:
  "grows_by (fetched gw1 \<union> fetched gw2) (fst st) (fst (interleave gw1 gw2 uid sid sched st))"
proof (induction sched arbitrary: st)
  case Nil
  then show ?case by (simp add: grows_by_refl)
next
  case (Cons b bs)
  obtain h pc1 pc2 where st: "st = (h, pc1, pc2)" by (cases st)
  show ?case
  proof (cases b)
    case True
    let ?st' = "(fst (stop_advance gw1 uid sid pc1 h), snd (stop_advance gw1 uid sid pc1 h), pc2)"
    have eq: "interleave gw1 gw2 uid sid (b # bs) st = interleave gw1 gw2 uid sid bs ?st'"
      by (simp add: st True split_beta)
    have "grows_by (fetched gw1 \<union> fetched gw2) h (fst ?st')"
      using stop_advance_grows [of gw1 h uid sid pc1] by (auto intro: grows_by_mono)
    from grows_by_trans [OF this Cons.IH [of ?st']] show ?thesis
      unfolding eq by (simp add: st)
  next
    case False
    let ?st' = "(fst (stop_advance gw2 uid sid pc2 h), pc1, snd (stop_advance gw2 uid sid pc2 h))"
    have eq: "interleave gw1 gw2 uid sid (b # bs) st = interleave gw1 gw2 uid sid bs ?st'"
      by (simp add: st False split_beta)
    have "grows_by (fetched gw1 \<union> fetched gw2) h (fst ?st')"
      using stop_advance_grows [of gw2 h uid sid pc2] by (auto intro: grows_by_mono)
    from grows_by_trans [OF this Cons.IH [of ?st']] show ?thesis
      unfolding eq by (simp add: st)
  qed
qed

lemma stop_session_payloads:
  "\<exists>ps. saved_payloads (calls (stop_session gw1 gw2 sched uid sid h)) =
          saved_payloads (calls h) @ ps \<and> set ps \<subseteq> fetched gw1 \<union> fetched gw2"
proof -
  obtain h1 pc1 where b: "stop_begin (isTracking h) h = (h1, pc1)"
    by (cases "stop_begin (isTracking h) h")
  have "saved_payloads (calls h1) = saved_payloads (calls h)"
    using b by (auto simp: stop_begin_def emit_def saved_payloads_append split: if_splits)
  then have "grows_by (fetched gw1 \<union> fetched gw2) h h1"
    by (simp add: grows_by_def)
  moreover have "grows_by (fetched gw1 \<union> fetched gw2) h1
      (fst (interleave gw1 gw2 uid sid (sched @ [True, True, False, False, False])
         (h1, pc1, cleanup_run (isTracking h) (isTracking h1))))"
    using interleave_grows [where st = "(h1, pc1, cleanup_run (isTracking h) (isTracking h1))"]
    by simp
  ultimately have "grows_by (fetched gw1 \<union> fetched gw2) h
      (fst (interleave gw1 gw2 uid sid (sched @ [True, True, False, False, False])
         (h1, pc1, cleanup_run (isTracking h) (isTracking h1))))"
    by (rule grows_by_trans)
  then show ?thesis
    by (simp add: stop_session_def stop_session_state_def b grows_by_def)
qed


text \<open>With tracking off, a stop does nothing.\<close>

lemma stop_session_idle: "\<not> isTracking h \<Longrightarrow> stop_session gw1 gw2 sched uid sid h = h"
proof -
  assume idle: "\<not> isTracking h"
  have "interleave gw1 gw2 uid sid xs (h, Finished, Finished) = (h, Finished, Finished)" for xs
    by (induction xs) (simp_all add: stop_advance_def)
  with idle show ?thesis
    by (simp add: stop_session_def stop_session_state_def stop_begin_def cleanup_run_def)
qed

subsection \<open>Starting while the vision service is unavailable\<close>

lemma startTracking_unavailable:
  "gw_health gw \<noteq> Inr True \<Longrightarrow>
   startTracking gw h =
     (h\<lparr>flaskServerAvailable := False, error := Some server_unavailable,
        calls := calls h @ [Toast ''Tracking Error'' server_unavailable True]\<rparr>, False)"
  by (cases "gw_health gw")
     (auto simp: startTracking_def checkFlaskServer_def tracking_failed_def emit_def
        errorMessage_def Let_def)

text \<open>
  Claim C2. When the session is idle and the health check does not answer "available"
  (it answers false, or fails), a start attempt returns false and leaves \<open>isTracking\<close>
  false; the player is left exactly as it was, so no camera stream is requested; the
  error message is set; and the only call the hook makes is the destructive error toast:
  neither \<open>resetTracking\<close> nor \<open>saveTrackingResults\<close> is called.
\<close>

theorem start_unavailable_stays_idle:
  assumes "\<not> isTracking (hook c)" and "gw_health gw \<noteq> Inr True"
  shows "snd (startTracking gw (hook c)) = False \<and>
         snd (toggleTracking gw uid sid (hook c)) = False \<and>
         \<not> isTracking (hook (classroom_toggle gw gw2 sched out uid sid c)) \<and>
         player (classroom_toggle gw gw2 sched out uid sid c) = player c \<and>
         error (hook (classroom_toggle gw gw2 sched out uid sid c)) = Some server_unavailable \<and>
         calls (hook (classroom_toggle gw gw2 sched out uid sid c)) =
           calls (hook c) @ [Toast ''Tracking Error'' server_unavailable True]"
  using assms
  by (simp add: classroom_toggle_def toggleTracking_def startTracking_unavailable Let_def)

theorem start_unavailable_stays_idle_witness:
  "\<not> isTracking (hook classroom_init) \<and> gw_health gateway_down \<noteq> Inr True \<and>
   snd (startTracking gateway_down (hook classroom_init)) = False \<and>
   \<not> isTracking (hook (classroom_toggle gateway_down gateway_down [] CameraStream 1 1
        classroom_init)) \<and>
   player (classroom_toggle gateway_down gateway_down [] CameraStream 1 1 classroom_init) =
     player_init False \<and>
   error (hook (classroom_toggle gateway_down gateway_down [] CameraStream 1 1
        classroom_init)) = Some server_unavailable \<and>
   calls (hook (classroom_toggle gateway_down gateway_down [] CameraStream 1 1
        classroom_init)) = [Toast ''Tracking Error'' server_unavailable True]"
  using start_unavailable_stays_idle [of classroom_init gateway_down 1 1 gateway_down "[]"
      CameraStream]
  by (simp add: classroom_init_def hook_init_def gateway_down_def)

subsection \<open>Stopping\<close>

text \<open>
  When the webcam playback has started (\<open>usingWebcam\<close>), a stop takes tracking off and
  the player's effect stops the tracks of the stream it holds, whatever the aggregate
  fetches and the saves do.
\<close>

lemma stop_releases_camera_when_playing:
  assumes "isTracking (hook c)" and "usingWebcam (player c)"
  shows "\<not> isTracking (hook (classroom_toggle gw1 gw2 sched out uid sid c)) \<and>
         mediaStreamRef (player (classroom_toggle gw1 gw2 sched out uid sid c)) = None \<and>
         (\<forall>st. mediaStreamRef (player c) = Some st \<longrightarrow>
            st \<notin> set (liveStreams (player (classroom_toggle gw1 gw2 sched out uid sid c))))"
  using assms stop_session_off [of gw1 gw2 sched uid sid "hook c"]
  by (auto simp: classroom_toggle_def webcam_effect_def stopWebcam_def
      release_stream_def Let_def split: option.splits)

lemma classroom_started_eval:
  "classroom_started =
     \<lparr>hook = hook_active,
      player = \<lparr>usingWebcam = False, isPlaying = False, mediaStreamRef = Some 0,
                onloadedmetadata = True, liveStreams = [0], acquired = 1,
                toasts = [(''Camera Active'',
                  ''Your webcam is now being used for attention tracking'', False)]\<rparr>\<rparr>"
  by (simp add: classroom_started_def classroom_toggle_def classroom_init_def
      toggleTracking_def hook_active_eval startTracking_def checkFlaskServer_def
      gateway_up_def hook_init_def emit_def webcam_effect_def startWebcam_def
      player_init_def Let_def)

text \<open>
  Claim C3. A session is started and the camera delivers stream 0, but the video
  element's \<open>play()\<close> is rejected, so \<open>usingWebcam\<close> stays false while tracking is on
  and the stream is live. A stop then takes tracking off, under any outcomes of the
  aggregate fetches and the saves, and the effect does not call \<open>stopWebcam\<close>: stream 0
  is still live and still held by the ref.
\<close>

theorem stop_before_playback_keeps_camera_open:
  "isTracking (hook classroom_play_rejected) \<and>
   liveStreams (player classroom_play_rejected) = [0] \<and>
   \<not> usingWebcam (player classroom_play_rejected) \<and>
   \<not> isTracking (hook (classroom_toggle gw1 gw2 sched out 1 1 classroom_play_rejected)) \<and>
   liveStreams (player (classroom_toggle gw1 gw2 sched out 1 1 classroom_play_rejected)) = [0] \<and>
   mediaStreamRef (player (classroom_toggle gw1 gw2 sched out 1 1 classroom_play_rejected)) =
     Some 0"
  using stop_session_off [of gw1 gw2 sched 1 1 hook_active]
  by (simp add: classroom_play_rejected_def classroom_started_eval
      classroom_loadedmetadata_def loadedmetadata_def classroom_toggle_def
      webcam_effect_def hook_active_eval)


text \<open>A property kept by every step of either invocation holds after any schedule.\<close>

lemma interleave_invariant:
  assumes step1: "\<And>h pc1 pc2. P (h, pc1, pc2) \<Longrightarrow>
            P (fst (stop_advance gw1 uid sid pc1 h), snd (stop_advance gw1 uid sid pc1 h), pc2)"
    and step2: "\<And>h pc1 pc2. P (h, pc1, pc2) \<Longrightarrow>
            P (fst (stop_advance gw2 uid sid pc2 h), pc1, snd (stop_advance gw2 uid sid pc2 h))"
    and init: "P st"
  shows "P (interleave gw1 gw2 uid sid sched st)"
  using init
proof (induction sched arbitrary: st)
  case Nil
  then show ?case by simp
next
  case (Cons b bs)
  obtain h pc1 pc2 where st: "st = (h, pc1, pc2)" by (cases st)
  show ?case
  proof (cases b)
    case True
    have "P (fst (stop_advance gw1 uid sid pc1 h), snd (stop_advance gw1 uid sid pc1 h), pc2)"
      using Cons.prems by (simp add: st step1)
    from Cons.IH [OF this] show ?thesis
      by (simp add: st True split_beta)
  next
    case False
    have "P (fst (stop_advance gw2 uid sid pc2 h), pc1, snd (stop_advance gw2 uid sid pc2 h))"
      using Cons.prems by (simp add: st step2)
    from Cons.IH [OF this] show ?thesis
      by (simp add: st False split_beta)
  qed
qed

text \<open>
  When tracking is on and both aggregate fetches of a stop fail, tracking is off
  afterwards, nothing is handed to \<open>saveTrackingResults\<close>, and the hook's error is the
  message of one of the two failures.
\<close>

lemma stop_with_every_fetch_failing:
  assumes "isTracking h" and "gw_aggregate gw1 = Inl e1" and "gw_aggregate gw2 = Inl e2"
  shows "\<not> isTracking (stop_session gw1 gw2 sched uid sid h) \<and>
         saved_payloads (calls (stop_session gw1 gw2 sched uid sid h)) = saved_payloads (calls h) \<and>
         (error (stop_session gw1 gw2 sched uid sid h) =
            Some (errorMessage e1 ''Failed to stop tracking'') \<or>
          error (stop_session gw1 gw2 sched uid sid h) =
            Some (errorMessage e2 ''Failed to stop tracking''))"
proof -
  define P :: "hook_state \<times> stop_pc \<times> stop_pc \<Rightarrow> bool" where
    "P = (\<lambda>(h, pc1, pc2).
       (pc1 = AwaitingAggregate \<or> pc1 = Finished) \<and> pc2 \<noteq> AwaitingSave \<and>
       (pc1 = Finished \<longrightarrow>
          error h = Some (errorMessage e1 ''Failed to stop tracking'') \<or>
          error h = Some (errorMessage e2 ''Failed to stop tracking'')))"
  have s1: "P (fst (stop_advance gw1 uid sid pc1 h), snd (stop_advance gw1 uid sid pc1 h), pc2)"
    if "P (h, pc1, pc2)" for h pc1 pc2
    using that assms(2)
    by (auto simp: P_def stop_advance_def stop_on_aggregate_def tracking_failed_def emit_def
        Let_def)
  have s2: "P (fst (stop_advance gw2 uid sid pc2 h), pc1, snd (stop_advance gw2 uid sid pc2 h))"
    if "P (h, pc1, pc2)" for h pc1 pc2
    using that assms(3)
    by (cases pc2)
       (auto simp: P_def stop_advance_def stop_begin_def stop_on_aggregate_def
          tracking_failed_def emit_def Let_def)
  have "P (h\<lparr>isTracking := False, calls := calls h @ [GetTrackingResults]\<rparr>,
           AwaitingAggregate, NotStarted)"
    by (simp add: P_def)
  then have fin: "P (stop_session_state gw1 gw2 sched uid sid h)"
    unfolding stop_session_state_def using assms(1)
    by (simp add: stop_begin_def cleanup_run_def emit_def interleave_invariant [of P, OF s1 s2])
  obtain h' pc1 pc2 where r: "stop_session_state gw1 gw2 sched uid sid h = (h', pc1, pc2)"
    by (cases "stop_session_state gw1 gw2 sched uid sid h")
  have "pc1 = Finished"
    using stop_session_completes [of gw1 gw2 sched uid sid h] by (simp add: r)
  with fin have err: "error h' = Some (errorMessage e1 ''Failed to stop tracking'') \<or>
                      error h' = Some (errorMessage e2 ''Failed to stop tracking'')"
    by (simp add: P_def r)
  have "fetched gw1 \<union> fetched gw2 = {}"
    using assms(2,3) by (simp add: fetched_def)
  with stop_session_payloads [of gw1 gw2 sched uid sid h]
  have "saved_payloads (calls (stop_session gw1 gw2 sched uid sid h)) = saved_payloads (calls h)"
    by auto
  with err show ?thesis
    using stop_session_off [of gw1 gw2 sched uid sid h] by (simp add: stop_session_def r)
qed

text \<open>
  Claim C4. An active session is stopped; the aggregate fetch of the caller's
  \<open>stopTracking\<close> fails, and the fetch of the invocation made by the hook's cleanup
  succeeds. Whatever the order in which the two proceed, tracking is off afterwards and
  the error is set to the failure's message, but the aggregate of the second fetch has
  been handed to \<open>saveTrackingResults\<close>.
\<close>

theorem failed_fetch_is_followed_by_a_save:
  "\<not> isTracking (stop_session gateway_aggregate_fails gateway_up sched 1 1 hook_active) \<and>
   error (stop_session gateway_aggregate_fails gateway_up sched 1 1 hook_active) =
     Some ''Failed to get tracking results: Bad Gateway'' \<and>
   saved_payloads (calls (stop_session gateway_aggregate_fails gateway_up sched 1 1 hook_active)) =
     [aggregate_counts_only] \<and>
   length (filter (\<lambda>c. c = GetTrackingResults)
     (calls (stop_session gateway_aggregate_fails gateway_up sched 1 1 hook_active))) = 2"
proof -
  define P :: "hook_state \<times> stop_pc \<times> stop_pc \<Rightarrow> bool" where
    "P = (\<lambda>(h, pc1, pc2).
       (pc1 = AwaitingAggregate \<or> pc1 = Finished) \<and>
       error h = (if pc1 = Finished then Some ''Failed to get tracking results: Bad Gateway''
                  else None) \<and>
       saved_payloads (calls h) =
         (if pc2 = AwaitingSave \<or> pc2 = Finished then [aggregate_counts_only] else []) \<and>
       length (filter (\<lambda>c. c = GetTrackingResults) (calls h)) =
         (if pc2 = NotStarted then 1 else 2))"
  define st0 where
    "st0 = (emit [GetTrackingResults] (hook_active\<lparr>isTracking := False\<rparr>), AwaitingAggregate,
            NotStarted)"
  have s1: "P (fst (stop_advance gateway_aggregate_fails 1 1 pc1 h),
               snd (stop_advance gateway_aggregate_fails 1 1 pc1 h), pc2)"
    if "P (h, pc1, pc2)" for h pc1 pc2
    using that
    by (auto simp: P_def stop_advance_def stop_on_aggregate_def gateway_aggregate_fails_def
        gateway_up_def tracking_failed_def emit_def errorMessage_def saved_payloads_append
        Let_def)
  have s2: "P (fst (stop_advance gateway_up 1 1 pc2 h), pc1,
               snd (stop_advance gateway_up 1 1 pc2 h))"
    if "P (h, pc1, pc2)" for h pc1 pc2
    using that
    by (cases pc2)
       (auto simp: P_def stop_advance_def stop_begin_def stop_on_aggregate_def stop_on_save_def
          gateway_up_def emit_def saved_payloads_append Let_def)
  have "P st0"
    by (simp add: P_def st0_def hook_active_eval emit_def)
  then have fin: "P (stop_session_state gateway_aggregate_fails gateway_up sched 1 1 hook_active)"
    unfolding stop_session_state_def
    by (simp add: stop_begin_def cleanup_run_def hook_active_eval emit_def st0_def
        interleave_invariant [of P, OF s1 s2])
  obtain h pc1 pc2 where
    r: "stop_session_state gateway_aggregate_fails gateway_up sched 1 1 hook_active = (h, pc1, pc2)"
    by (cases "stop_session_state gateway_aggregate_fails gateway_up sched 1 1 hook_active")
  have "pc1 = Finished" "pc2 = Finished"
    using stop_session_completes [of gateway_aggregate_fails gateway_up sched 1 1 hook_active]
    by (simp_all add: r)
  with fin show ?thesis
    using stop_session_off [of gateway_aggregate_fails gateway_up sched 1 1 hook_active]
    by (simp add: P_def r stop_session_def)
qed



subsection \<open>Frame responses\<close>

lemma truthy_iff_not_falsy: "truthy v \<longleftrightarrow> v \<notin> falsy"
  by (cases v) (auto simp: falsy_def)

lemma js_or_falsy: "js_or a b = (if a \<in> falsy then b else a)"
  by (simp add: js_or_def truthy_iff_not_falsy)

text \<open>
  Claim C10. While tracking is on, a frame response that is an object updates the live
  metrics with every falsy field replaced by its default: a missing, null or zero count
  becomes 0, a missing or empty facial expression becomes \<open>neutral\<close>, and a missing,
  null or zero attentiveness score becomes 85; any other value is shown as received.
\<close>

theorem frame_defaults:
  assumes "isTracking h" and "frameData \<noteq> []" and "gw_frame gw = Inr (JsonObject fr)"
  shows "metrics (processVideoFrame gw frameData h) =
     Some \<lparr>eyeMovements =
             (if eye_movement_count fr \<in> falsy then JNum 0 else eye_movement_count fr),
           eyeBlinks = (if blink_count fr \<in> falsy then JNum 0 else blink_count fr),
           postureChanges =
             (if posture_change_count fr \<in> falsy then JNum 0 else posture_change_count fr),
           attentivenessScore =
             (if attentiveness_score fr \<in> falsy then JNum 85 else attentiveness_score fr),
           facialExpression =
             (if facial_expression fr \<in> falsy then JStr ''neutral''
              else facial_expression fr)\<rparr>"
  using assms
  by (simp add: processVideoFrame_def frame_metrics_def js_or_falsy emit_def Let_def)

theorem frame_defaults_witness:
  "isTracking hook_active \<and> ''data:image/jpeg;base64,AA'' \<noteq> [] \<and>
   gw_frame (gateway_up\<lparr>gw_frame := Inr (JsonObject
      \<lparr>eye_movement_count = JNum 3, blink_count = JUndefined,
       posture_change_count = JNull, attentiveness_score = JNum 0,
       facial_expression = JUndefined\<rparr>)\<rparr>) =
     Inr (JsonObject
      \<lparr>eye_movement_count = JNum 3, blink_count = JUndefined,
       posture_change_count = JNull, attentiveness_score = JNum 0,
       facial_expression = JUndefined\<rparr>) \<and>
   metrics (processVideoFrame
      (gateway_up\<lparr>gw_frame := Inr (JsonObject
         \<lparr>eye_movement_count = JNum 3, blink_count = JUndefined,
          posture_change_count = JNull, attentiveness_score = JNum 0,
          facial_expression = JUndefined\<rparr>)\<rparr>)
      ''data:image/jpeg;base64,AA'' hook_active) =
   Some \<lparr>eyeMovements = JNum 3, eyeBlinks = JNum 0, postureChanges = JNum 0,
         attentivenessScore = JNum 85, facialExpression = JStr ''neutral''\<rparr>"
  using frame_defaults [of hook_active "''data:image/jpeg;base64,AA''"
      "gateway_up\<lparr>gw_frame := Inr (JsonObject
         \<lparr>eye_movement_count = JNum 3, blink_count = JUndefined,
          posture_change_count = JNull, attentiveness_score = JNum 0,
          facial_expression = JUndefined\<rparr>)\<rparr>"
      "\<lparr>eye_movement_count = JNum 3, blink_count = JUndefined,
          posture_change_count = JNull, attentiveness_score = JNum 0,
          facial_expression = JUndefined\<rparr>"]
  by (simp add: falsy_def hook_active_eval)

subsection \<open>The attentiveness score\<close>

lemma shown_score_eval:
  "shown_score fr =
     Some (if attentiveness_score fr \<in> falsy then JNum 85 else attentiveness_score fr)"
  by (simp add: shown_score_def processVideoFrame_def frame_metrics_def js_or_falsy emit_def
      Let_def hook_active_eval)

text \<open>
  Claim C6, as stated, fails. A frame response in which the service reports the score 0
  is shown as 85: the service's own score is not used. And the score shown does not
  follow the facial expression: two responses without a score, alike in their counts,
  one focused and one distracted, both show 85, so the score shown is not the
  70/15/10/5 blend of component scores for any scoring of the expression that tells
  focused from distracted, whatever the scoring of the counts.
\<close>

theorem service_score_zero_is_replaced:
  "attentiveness_score frame_score_zero = JNum 0 \<and>
   shown_score frame_score_zero = Some (JNum 85) \<and>
   \<not> (\<exists>expression_score eye_score blink_score posture_score.
        expression_score (JStr ''focused'') \<noteq> expression_score (JStr ''distracted'') \<and>
        shown_score frame_focused =
          Some (JNum (spec_weighted_blend
            (expression_score (facial_expression frame_focused))
            (eye_score (eye_movement_count frame_focused))
            (blink_score (blink_count frame_focused))
            (posture_score (posture_change_count frame_focused)))) \<and>
        shown_score frame_distracted =
          Some (JNum (spec_weighted_blend
            (expression_score (facial_expression frame_distracted))
            (eye_score (eye_movement_count frame_distracted))
            (blink_score (blink_count frame_distracted))
            (posture_score (posture_change_count frame_distracted)))))"
proof -
  have zero: "attentiveness_score frame_score_zero = JNum 0"
    "shown_score frame_score_zero = Some (JNum 85)"
    by (simp_all add: shown_score_eval frame_score_zero_def falsy_def)
  have both: "shown_score frame_focused = Some (JNum 85)"
    "shown_score frame_distracted = Some (JNum 85)"
    by (simp_all add: shown_score_eval frame_focused_def frame_distracted_def falsy_def)
  have "f (JStr ''focused'') = f (JStr ''distracted'')"
    if "Some (JNum 85) = Some (JNum (spec_weighted_blend (f (JStr ''focused'')) a b c))"
      and "Some (JNum 85) = Some (JNum (spec_weighted_blend (f (JStr ''distracted'')) a b c))"
    for f :: "jsval \<Rightarrow> rat" and a b c
    using that by (simp add: spec_weighted_blend_def)
  then show ?thesis
    unfolding both using zero
    by (auto simp: frame_focused_def frame_distracted_def)
qed

text \<open>
  Claim C6, amended. The hook computes no blend. While tracking is on, the score it
  shows for a frame response is the service's \<open>attentiveness_score\<close> when that is
  truthy, and the constant 85 when it is missing, null or 0, whatever the raw counts and
  the expression; and every payload handed to \<open>saveTrackingResults\<close> during a stop is
  an aggregate the service returned, unchanged.
\<close>

theorem score_is_service_score_or_85:
  assumes "isTracking h" and "frameData \<noteq> []" and "gw_frame gw = Inr (JsonObject fr)"
  shows "map_option attentivenessScore (metrics (processVideoFrame gw frameData h)) =
           Some (if attentiveness_score fr \<in> falsy then JNum 85 else attentiveness_score fr) \<and>
         (\<exists>ps. saved_payloads (calls (stop_session gw1 gw2 sched uid sid h)) =
                 saved_payloads (calls h) @ ps \<and>
               set ps \<subseteq> fetched gw1 \<union> fetched gw2)"
proof -
  have "map_option attentivenessScore (metrics (processVideoFrame gw frameData h)) =
          Some (if attentiveness_score fr \<in> falsy then JNum 85 else attentiveness_score fr)"
    using assms
    by (simp add: processVideoFrame_def frame_metrics_def js_or_falsy emit_def Let_def)
  then show ?thesis
    using stop_session_payloads [of gw1 gw2 sched uid sid h] by simp
qed

theorem score_is_service_score_or_85_witness:
  "isTracking hook_active \<and> ''data:image/jpeg;base64,AA'' \<noteq> [] \<and>
   gw_frame gateway_up = Inr (JsonObject frame_distracted) \<and>
   map_option attentivenessScore
     (metrics (processVideoFrame gateway_up ''data:image/jpeg;base64,AA'' hook_active)) =
     Some (JNum 85) \<and>
   fetched gateway_up = {aggregate_counts_only} \<and>
   saved_payloads (calls (stop_session gateway_up gateway_up [] 1 1 hook_active)) =
     [aggregate_counts_only, aggregate_counts_only]"
  using score_is_service_score_or_85 [of hook_active "''data:image/jpeg;base64,AA''" gateway_up
      frame_distracted gateway_up gateway_up "[]" 1 1]
  by (simp add: hook_active_eval gateway_up_def frame_distracted_def falsy_def fetched_def
      stop_session_def stop_session_state_def stop_begin_def cleanup_run_def stop_advance_def
      stop_on_aggregate_def stop_on_save_def emit_def)

section \<open>Properties of the results page\<close>

lemma to_double_0: "to_double 0 = Num 0"
  by (simp add: to_double_def)

text \<open>
  Claim C5. For a stored histogram whose four counts are all zero, the page computes
  \<open>Math.round(0 / 0 * 100)\<close> for every category: each number shown is \<open>NaN\<close>, for the
  facial expressions and for the posture states, and not 0.
\<close>

theorem all_zero_histogram_yields_NaN:
  "facial_percentages
     (Some \<lparr>fe_neutral = 0, fe_focused = 0, fe_confused = 0, fe_distracted = 0\<rparr>) =
     Some [NaN, NaN, NaN, NaN] \<and>
   posture_percentages
     (Some \<lparr>ps_upright = 0, ps_leaning_forward = 0, ps_slouching = 0, ps_away = 0\<rparr>) =
     Some [NaN, NaN, NaN, NaN]"
  by (simp add: facial_percentages_def posture_percentages_def percentage_def to_double_0)

text \<open>
  With counts 23 and 17 the first share is shown as 57: the quotient and the product
  are each rounded to a double, and the product falls just below 57.5.
\<close>

lemma percentage_23_of_40: "percentage (Num 23) (Num 23) (Num 17) (Num 0) (Num 0) = Num 57"
  by code_simp


end
